theory Spec2Isabelle
  imports Complex_Main "HOL-Library.AList"
begin

section \<open>Errors raised by the separation code\<close>

text \<open>
  Every \<open>raise\<close> of the source and of the library calls it makes is a value:
  \<open>ValueError\<close>, \<open>IndexError\<close> and \<open>KeyError\<close> are Python's; \<open>RuntimeError\<close> is what
  PyTorch raises on a shape mismatch; \<open>ConfigError\<close> is the \<open>Exception\<close> of
  \<open>UMXSeparator.forward\<close> ("Cannot use EM if only one target is estimated");
  \<open>CollaboratorError\<close> is an exception of a collaborator that lives outside this file
  (the transforms, the Wiener filter, a target estimator), with its name.
\<close>

datatype error =
    ValueError
  | IndexError
  | KeyError
  | RuntimeError
  | ConfigError
  | CollaboratorError string

section \<open>Bandwidth limiter (\<open>bandwidth_to_max_bin\<close>)\<close>

text \<open>
  \<open>np.linspace(start, stop, num, endpoint=True)\<close>: a negative \<open>num\<close> raises
  \<open>ValueError\<close>; otherwise \<open>num\<close> points \<open>start + i * step\<close> with
  \<open>step = (stop - start) / (num - 1)\<close>, the last one set to \<open>stop\<close> when
  \<open>num > 1\<close>. Frequencies are exact reals here: the rounding of IEEE doubles is
  not part of the model.
\<close>

definition linspace_point :: "real \<Rightarrow> real \<Rightarrow> nat \<Rightarrow> nat \<Rightarrow> real" where
  "linspace_point start stop n i =
     (if 1 < n \<and> i = n - 1 then stop
      else if 0 < n - 1 then real i * ((stop - start) / real (n - 1)) + start
      else real i * (stop - start) + start)"

definition linspace :: "real \<Rightarrow> real \<Rightarrow> int \<Rightarrow> error + real list" where
  "linspace start stop num =
     (if num < 0 then Inl ValueError
      else Inr (map (linspace_point start stop (nat num)) [0..<nat num]))"

text \<open>\<open>np.where(freqs <= bandwidth)[0]\<close>: the indices, in order, whose entry passes.\<close>

definition where_le :: "real list \<Rightarrow> real \<Rightarrow> nat list" where
  "where_le freqs bandwidth = filter (\<lambda>i. freqs ! i \<le> bandwidth) [0..<length freqs]"

text \<open>\<open>np.max\<close> raises \<open>ValueError\<close> on an empty array.\<close>

definition np_max :: "nat list \<Rightarrow> error + nat" where
  "np_max xs = (case xs of [] \<Rightarrow> Inl ValueError | y # ys \<Rightarrow> Inr (fold max ys y))"

definition bandwidth_to_max_bin :: "real \<Rightarrow> int \<Rightarrow> real \<Rightarrow> error + int" where
  "bandwidth_to_max_bin rate n_fft bandwidth =
     (case linspace 0 (rate / 2) (n_fft div 2 + 1) of
        Inl e \<Rightarrow> Inl e
      | Inr freqs \<Rightarrow>
          (case np_max (where_le freqs bandwidth) of
             Inl e \<Rightarrow> Inl e
           | Inr m \<Rightarrow> Inr (int m + 1)))"

section \<open>Tensors\<close>

text \<open>
  A tensor is its shape and its entries, read at a multi-index. Only the entries at
  valid multi-indices (one index per axis, each below the axis' size) mean anything.
  Entries are exact reals wherever arithmetic is done on them.
\<close>

record 'a tensor =
  shape :: "nat list"
  entry :: "nat list \<Rightarrow> 'a"

definition valid_index :: "nat list \<Rightarrow> nat list \<Rightarrow> bool" where
  "valid_index shp idx = list_all2 (\<lambda>i d. i < d) idx shp"

definition zeros :: "nat list \<Rightarrow> ('a::zero) tensor" where
  "zeros shp = \<lparr>shape = shp, entry = (\<lambda>idx. 0)\<rparr>"

text \<open>The position of the first \<open>k\<close> in a list (its length when \<open>k\<close> is absent).\<close>

definition pos_of :: "'b list \<Rightarrow> 'b \<Rightarrow> nat" where
  "pos_of xs k = length (takeWhile (\<lambda>x. x \<noteq> k) xs)"

text \<open>
  \<open>t.permute(dims)\<close>: axis \<open>i\<close> of the result is axis \<open>dims[i]\<close> of \<open>t\<close>;
  \<open>dims\<close> must name every axis once.
\<close>

definition permute :: "nat list \<Rightarrow> 'a tensor \<Rightarrow> error + 'a tensor" where
  "permute dims t =
     (if length dims = length (shape t) \<and> distinct dims
         \<and> list_all (\<lambda>d. d < length (shape t)) dims
      then Inr \<lparr>shape = map (\<lambda>d. shape t ! d) dims,
               entry = (\<lambda>idx. entry t (map (\<lambda>k. idx ! pos_of dims k) [0..<length dims]))\<rparr>
      else Inl RuntimeError)"

text \<open>
  Broadcasting a tensor to a shape (\<open>expand\<close>): shapes are aligned at the right, and
  an axis of the tensor must have the size asked for or size 1.
\<close>

definition expandable :: "nat list \<Rightarrow> nat list \<Rightarrow> bool" where
  "expandable vs shp =
     (length vs \<le> length shp
      \<and> list_all2 (\<lambda>d e. d = e \<or> d = 1) vs (drop (length shp - length vs) shp))"

definition expand_index :: "nat list \<Rightarrow> nat list \<Rightarrow> nat list" where
  "expand_index vs idx =
     map2 (\<lambda>d i. if d = 1 then 0 else i) vs (drop (length idx - length vs) idx)"

definition expand :: "'a tensor \<Rightarrow> nat list \<Rightarrow> error + 'a tensor" where
  "expand v shp =
     (if expandable (shape v) shp
      then Inr \<lparr>shape = shp, entry = (\<lambda>idx. entry v (expand_index (shape v) idx))\<rparr>
      else Inl RuntimeError)"

text \<open>
  \<open>t[..., j] = v\<close>: \<open>j\<close> must be below the size of the last axis
  (\<open>IndexError\<close> otherwise), and \<open>v\<close>, its leading axes of size 1 dropped, must
  broadcast to the shape of \<open>t\<close> without its last axis.
\<close>

definition setitem_last :: "'a tensor \<Rightarrow> nat \<Rightarrow> 'a tensor \<Rightarrow> error + 'a tensor" where
  "setitem_last t j v =
     (if shape t = [] \<or> \<not> j < last (shape t) then Inl IndexError
      else case expand \<lparr>shape = dropWhile (\<lambda>d. d = 1) (shape v),
                        entry = (\<lambda>idx. entry v (replicate (length (shape v) - length idx) 0 @ idx))\<rparr>
                  (butlast (shape t)) of
             Inl e \<Rightarrow> Inl e
           | Inr v' \<Rightarrow>
               Inr \<lparr>shape = shape t,
                    entry = (\<lambda>idx. if idx \<noteq> [] \<and> last idx = j then entry v' (butlast idx)
                                else entry t idx)\<rparr>)"

text \<open>
  \<open>t[sample, cur_frame]\<close> with an integer and an index tensor: the result has one
  row per entry of \<open>cur_frame\<close>, then the remaining axes of \<open>t\<close>.
\<close>

definition getitem_frames :: "'a tensor \<Rightarrow> nat \<Rightarrow> nat list \<Rightarrow> error + 'a tensor" where
  "getitem_frames t sample cur_frame =
     (if length (shape t) < 2 \<or> \<not> sample < shape t ! 0
         \<or> \<not> list_all (\<lambda>f. f < shape t ! 1) cur_frame
      then Inl IndexError
      else Inr \<lparr>shape = length cur_frame # drop 2 (shape t),
                entry = (\<lambda>idx. entry t (sample # cur_frame ! hd idx # tl idx))\<rparr>)"

text \<open>\<open>t[sample, cur_frame] = v\<close>: \<open>v\<close> must broadcast to the shape of the slot.\<close>

definition setitem_frames ::
  "'a tensor \<Rightarrow> nat \<Rightarrow> nat list \<Rightarrow> 'a tensor \<Rightarrow> error + 'a tensor" where
  "setitem_frames t sample cur_frame v =
     (if length (shape t) < 2 \<or> \<not> sample < shape t ! 0
         \<or> \<not> list_all (\<lambda>f. f < shape t ! 1) cur_frame
      then Inl IndexError
      else case expand v (length cur_frame # drop 2 (shape t)) of
             Inl e \<Rightarrow> Inl e
           | Inr v' \<Rightarrow>
               Inr \<lparr>shape = shape t,
                    entry = (\<lambda>idx. if hd idx = sample \<and> hd (tl idx) \<in> set cur_frame
                                then entry v' (pos_of cur_frame (hd (tl idx)) # drop 2 idx)
                                else entry t idx)\<rparr>)"

text \<open>
  \<open>torch.arange(a, b)\<close>: the integers from \<open>a\<close> up to \<open>b - 1\<close>; PyTorch raises a
  \<open>RuntimeError\<close> when \<open>b < a\<close>. The loop only ever starts at a position \<open>\<ge> 0\<close>,
  so the start is a natural number; the end may be any integer.
\<close>

definition arange :: "nat \<Rightarrow> int \<Rightarrow> error + nat list" where
  "arange a b = (if b < int a then Inl RuntimeError else Inr [a..<nat b])"

section \<open>The separator (\<open>UMXSeparator\<close>)\<close>

text \<open>
  A target estimator is a callable on a magnitude spectrogram. It is applied to the
  content of the buffer it is given and may work in place: it returns its output and
  what it left in that buffer, or \<open>None\<close> when it raises.
\<close>

type_synonym estimator = "real tensor \<Rightarrow> (real tensor \<times> real tensor) option"

text \<open>
  The fields of \<open>UMXSeparator\<close> that \<open>forward\<close> and \<open>to_dict\<close> read. The transforms
  \<open>_stft\<close>, \<open>_istft\<close> and \<open>_complexnorm\<close> come from \<open>dsp.transforms\<close>, which is not part
  of this file: they are fields holding arbitrary functions that may raise (\<open>None\<close>).
  \<open>_target_models\<close> is a Python dictionary: its items in insertion order.
\<close>

record UMXSeparator =
  residual :: bool
  wiener_win_len :: "int option"
  num_iter :: int
  softmask :: bool
  stft :: "real tensor \<Rightarrow> real tensor option"
  istft :: "real tensor \<Rightarrow> nat \<Rightarrow> real tensor option"
  complexnorm :: "real tensor \<Rightarrow> real tensor option"
  target_models :: "(string \<times> estimator) list"

text \<open>\<open>dsp.filtering.wiener(targets, mix_stft, iterations, softmask, residual)\<close>.\<close>

type_synonym wiener_filter =
  "real tensor \<Rightarrow> real tensor \<Rightarrow> int \<Rightarrow> bool \<Rightarrow> bool \<Rightarrow> real tensor option"

text \<open>
  What a run of \<open>forward\<close> does beyond computing its result: the buffers it allocates
  (\<open>heap\<close>, a buffer's address being its position), the input each estimator was
  called on, and the sample and frame indices of each call of the Wiener filter.
\<close>

record run_state =
  heap :: "real tensor list"
  estimator_calls :: "(string \<times> real tensor) list"
  wiener_calls :: "(nat \<times> nat list) list"

definition alloc :: "real tensor \<Rightarrow> run_state \<Rightarrow> nat \<times> run_state" where
  "alloc t s = (length (heap s), s\<lparr>heap := heap s @ [t]\<rparr>)"

text \<open>\<open>X.detach().clone()\<close>: a new buffer with the content of the buffer at \<open>a\<close>.\<close>

definition clone :: "nat \<Rightarrow> run_state \<Rightarrow> nat \<times> run_state" where
  "clone a s = alloc (heap s ! a) s"

text \<open>
  \<open>target_module(arg)\<close> with \<open>arg\<close> the buffer at address \<open>a\<close>: the estimator sees the
  content of that buffer, may overwrite it, and its output is a new buffer.
\<close>

definition call_estimator ::
  "string \<Rightarrow> estimator \<Rightarrow> nat \<Rightarrow> run_state \<Rightarrow> (error + nat) \<times> run_state" where
  "call_estimator name f a s =
     (let x = heap s ! a;
          s1 = s\<lparr>estimator_calls := estimator_calls s @ [(name, x)]\<rparr>
      in case f x of
           None \<Rightarrow> (Inl (CollaboratorError name), s1)
         | Some (out, x') \<Rightarrow> (case alloc out (s1\<lparr>heap := (heap s1)[a := x']\<rparr>) of
                               (ou, s2) \<Rightarrow> (Inr ou, s2)))"

text \<open>
  The loop over the targets (lines 249-253): \<open>aX\<close> is the address of \<open>X\<close>, \<open>aS\<close> that
  of \<open>spectrograms\<close>, \<open>j\<close> the running index of \<open>enumerate\<close>.
\<close>

fun estimate_loop ::
  "(string \<times> estimator) list \<Rightarrow> nat \<Rightarrow> nat \<Rightarrow> nat \<Rightarrow> run_state \<Rightarrow> (error + unit) \<times> run_state" where
  "estimate_loop [] j aX aS s = (Inr (), s)"
| "estimate_loop ((target_name, target_module) # rest) j aX aS s =
     (case clone aX s of (c, s1) \<Rightarrow>
      (case call_estimator target_name target_module c s1 of
         (Inl e, s2) \<Rightarrow> (Inl e, s2)
       | (Inr target_spectrogram, s2) \<Rightarrow>
           (case setitem_last (heap s2 ! aS) j (heap s2 ! target_spectrogram) of
              Inl e \<Rightarrow> (Inl e, s2)
            | Inr sp \<Rightarrow> estimate_loop rest (j + 1) aX aS (s2\<lparr>heap := (heap s2)[aS := sp]\<rparr>))))"

text \<open>
  The number of sources after lines 264-267: the loaded targets, plus one when a
  residual is built.
\<close>

definition effective_nb_sources :: "UMXSeparator \<Rightarrow> nat" where
  "effective_nb_sources sep =
     (if residual sep then length (target_models sep) + 1 else length (target_models sep))"

text \<open>
  The body of the chunk loop (lines 293-299): the Wiener filter is called on the
  frames \<open>cur_frame\<close> of sample \<open>sample\<close>, and its result is stored in those frames of
  \<open>targets_stft\<close>.
\<close>

definition refine_chunk ::
  "wiener_filter \<Rightarrow> UMXSeparator \<Rightarrow> real tensor \<Rightarrow> real tensor \<Rightarrow> nat \<Rightarrow> nat list
     \<Rightarrow> real tensor \<Rightarrow> run_state \<Rightarrow> (error + real tensor) \<times> run_state" where
  "refine_chunk wiener sep spectrograms mix_stft sample cur_frame targets_stft s =
     (case getitem_frames spectrograms sample cur_frame of
        Inl e \<Rightarrow> (Inl e, s)
      | Inr sp \<Rightarrow>
          (case getitem_frames mix_stft sample cur_frame of
             Inl e \<Rightarrow> (Inl e, s)
           | Inr mx \<Rightarrow>
               (let s1 = s\<lparr>wiener_calls := wiener_calls s @ [(sample, cur_frame)]\<rparr>
                in case wiener sp mx (num_iter sep) (softmask sep) (residual sep) of
                     None \<Rightarrow> (Inl (CollaboratorError ''wiener''), s1)
                   | Some y \<Rightarrow>
                       (case setitem_frames targets_stft sample cur_frame y of
                          Inl e \<Rightarrow> (Inl e, s1)
                        | Inr t' \<Rightarrow> (Inr t', s1)))))"

text \<open>
  The \<open>while pos < nb_frames\<close> loop (lines 289-299), for any loop body: \<open>cur_frame\<close>
  is \<open>arange(pos, min(nb_frames, pos + wiener_win_len))\<close>, and \<open>cur_frame[-1]\<close>
  raises \<open>IndexError\<close> when it is empty.
\<close>

function chunk_loop ::
  "(nat list \<Rightarrow> 'b \<Rightarrow> 's \<Rightarrow> (error + 'b) \<times> 's) \<Rightarrow> nat \<Rightarrow> int \<Rightarrow> nat \<Rightarrow> 'b \<Rightarrow> 's
     \<Rightarrow> (error + 'b) \<times> 's" where
  "chunk_loop body nb_frames win_len pos t s =
     (if pos < nb_frames then
        (case arange pos (min (int nb_frames) (int pos + win_len)) of
           Inl e \<Rightarrow> (Inl e, s)
         | Inr cur_frame \<Rightarrow>
             (if cur_frame = [] then (Inl IndexError, s)
              else (case body cur_frame t s of
                      (Inl e, s') \<Rightarrow> (Inl e, s')
                    | (Inr t', s') \<Rightarrow> chunk_loop body nb_frames win_len (last cur_frame + 1) t' s')))
      else (Inr t, s))"
  by pat_completeness auto
termination
  apply (relation "measure (\<lambda>(body, nb_frames, win_len, pos, t, s). nb_frames - pos)")
   apply simp
  apply (auto simp: arange_def split: if_splits)
  done

declare chunk_loop.simps [simp del]

text \<open>
  The window length of lines 285-288: \<open>_wiener_win_len\<close>, or the whole signal when it
  is \<open>None\<close>.
\<close>

definition eff_win_len :: "UMXSeparator \<Rightarrow> nat \<Rightarrow> int" where
  "eff_win_len sep nb_frames =
     (case wiener_win_len sep of Some w \<Rightarrow> w | None \<Rightarrow> int nb_frames)"

text \<open>The loop over the samples (lines 283-299), \<open>samples\<close> being \<open>range(nb_samples)\<close>.\<close>

fun sample_loop ::
  "wiener_filter \<Rightarrow> UMXSeparator \<Rightarrow> real tensor \<Rightarrow> real tensor \<Rightarrow> nat \<Rightarrow> nat list
     \<Rightarrow> real tensor \<Rightarrow> run_state \<Rightarrow> (error + real tensor) \<times> run_state" where
  "sample_loop wiener sep spectrograms mix_stft nb_frames [] targets_stft s =
     (Inr targets_stft, s)"
| "sample_loop wiener sep spectrograms mix_stft nb_frames (sample # rest) targets_stft s =
     (case chunk_loop (refine_chunk wiener sep spectrograms mix_stft sample)
             nb_frames (eff_win_len sep nb_frames) 0 targets_stft s of
        (Inl e, s') \<Rightarrow> (Inl e, s')
      | (Inr t', s') \<Rightarrow>
          sample_loop wiener sep spectrograms mix_stft nb_frames rest t' s')"

text \<open>
  Lines 264-307 of \<open>forward\<close>, once the mixture's STFT and the stacked spectrograms
  are there: the residual's extra source, the check on EM, the chunked refinement, the
  inverse transform.
\<close>

definition refine_and_invert ::
  "wiener_filter \<Rightarrow> UMXSeparator \<Rightarrow> real tensor \<Rightarrow> real tensor \<Rightarrow> real tensor \<Rightarrow> run_state
     \<Rightarrow> (error + real tensor \<times> real tensor) \<times> run_state" where
  "refine_and_invert wiener sep mix spectrograms mix_stft s =
     (let nb_sources = effective_nb_sources sep in
      if nb_sources = 1 \<and> 0 < num_iter sep then (Inl ConfigError, s)
      else if length (shape spectrograms) < 2 then (Inl IndexError, s)
      else
        (let nb_frames = shape spectrograms ! 1;
             targets_stft = zeros (shape mix_stft @ [nb_sources])
         in case sample_loop wiener sep spectrograms mix_stft nb_frames
                   [0..<hd (shape mix)] targets_stft s of
              (Inl e, s') \<Rightarrow> (Inl e, s')
            | (Inr targets_stft', s') \<Rightarrow>
                (case permute [0, 5, 3, 2, 1, 4] targets_stft' of
                   Inl e \<Rightarrow> (Inl e, s')
                 | Inr ts \<Rightarrow>
                     (if length (shape mix) < 3 then (Inl IndexError, s')
                      else (case istft sep ts (shape mix ! 2) of
                              None \<Rightarrow> (Inl (CollaboratorError ''istft''), s')
                            | Some estimates \<Rightarrow> (Inr (estimates, ts), s'))))))"

text \<open>
  Lines 235-262 of \<open>forward\<close>: the mixture moved to the device (a buffer of the
  run), its transform, its magnitude \<open>X\<close>, one estimate per target stacked in
  \<open>spectrograms\<close>, and the two permutations. \<open>mix.shape[0]\<close> raises \<open>IndexError\<close> on
  a tensor without axes. The result is the address of the mixture and the permuted
  \<open>spectrograms\<close> and \<open>mix_stft\<close>.
\<close>

definition prepare ::
  "UMXSeparator \<Rightarrow> real tensor \<Rightarrow> run_state
     \<Rightarrow> (error + nat \<times> real tensor \<times> real tensor) \<times> run_state" where
  "prepare sep mix s =
     (case alloc mix s of (aM, s0) \<Rightarrow>
      if shape (heap s0 ! aM) = [] then (Inl IndexError, s0)
      else case stft sep (heap s0 ! aM) of
        None \<Rightarrow> (Inl (CollaboratorError ''stft''), s0)
      | Some mix_stft \<Rightarrow>
          (case complexnorm sep mix_stft of
             None \<Rightarrow> (Inl (CollaboratorError ''complexnorm''), s0)
           | Some X \<Rightarrow>
               (case alloc X s0 of (aX, s1) \<Rightarrow>
                (case alloc (zeros (shape X @ [length (target_models sep)])) s1 of (aS, s2) \<Rightarrow>
                 (case estimate_loop (target_models sep) 0 aX aS s2 of
                    (Inl e, s3) \<Rightarrow> (Inl e, s3)
                  | (Inr u, s3) \<Rightarrow>
                      (case permute [0, 3, 2, 1, 4] (heap s3 ! aS) of
                         Inl e \<Rightarrow> (Inl e, s3)
                       | Inr spectrograms \<Rightarrow>
                           (case permute [0, 3, 2, 1, 4] mix_stft of
                              Inl e \<Rightarrow> (Inl e, s3)
                            | Inr mix_stft' \<Rightarrow>
                                (Inr (aM, spectrograms, mix_stft'), s3))))))))"

text \<open>\<open>UMXSeparator.forward\<close>: it returns \<open>(estimates, targets_stft)\<close>.\<close>

definition forward ::
  "wiener_filter \<Rightarrow> UMXSeparator \<Rightarrow> real tensor \<Rightarrow> run_state
     \<Rightarrow> (error + real tensor \<times> real tensor) \<times> run_state" where
  "forward wiener sep mix s =
     (case prepare sep mix s of
        (Inl e, s1) \<Rightarrow> (Inl e, s1)
      | (Inr (aM, spectrograms, mix_stft), s1) \<Rightarrow>
          refine_and_invert wiener sep (heap s1 ! aM) spectrograms mix_stft s1)"



section \<open>Packaging the estimates (\<open>to_dict\<close>, \<open>separate\<close>)\<close>

text \<open>The slice \<open>t[k]\<close> of a tensor along its first axis.\<close>

definition slice0 :: "'a tensor \<Rightarrow> nat \<Rightarrow> 'a tensor" where
  "slice0 t k = \<lparr>shape = tl (shape t), entry = (\<lambda>idx. entry t (k # idx))\<rparr>"

text \<open>
  \<open>t[i, :, ...]\<close> for a Python integer \<open>i\<close>: a negative \<open>i\<close> counts from the end, an
  \<open>i\<close> outside the first axis raises \<open>IndexError\<close>, and so does a tensor with fewer than
  two axes (the \<open>:\<close> needs a second one).
\<close>

definition getitem_first :: "'a tensor \<Rightarrow> int \<Rightarrow> error + 'a tensor" where
  "getitem_first t i =
     (if length (shape t) < 2 then Inl IndexError
      else let n = int (hd (shape t)) in
        if 0 \<le> i \<and> i < n then Inr (slice0 t (nat i))
        else if - n \<le> i \<and> i < 0 then Inr (slice0 t (nat (n + i)))
        else Inl IndexError)"

text \<open>\<open>t.squeeze(0)\<close>: the first axis is dropped when its size is 1.\<close>

definition squeeze0 :: "'a tensor \<Rightarrow> 'a tensor" where
  "squeeze0 t = (if shape t \<noteq> [] \<and> hd (shape t) = 1 then slice0 t 0 else t)"

text \<open>The shape two shapes broadcast to, aligned at the right; \<open>None\<close> when they do not.\<close>

definition broadcast_shape :: "nat list \<Rightarrow> nat list \<Rightarrow> nat list option" where
  "broadcast_shape a b =
     (let n = max (length a) (length b);
          a' = replicate (n - length a) 1 @ a;
          b' = replicate (n - length b) 1 @ b
      in if list_all2 (\<lambda>x y. x = y \<or> x = 1 \<or> y = 1) a' b'
         then Some (map2 (\<lambda>x y. if x = 1 then y else x) a' b')
         else None)"

text \<open>\<open>a + b\<close> on tensors, with broadcasting.\<close>

definition tensor_add :: "('a::plus) tensor \<Rightarrow> 'a tensor \<Rightarrow> error + 'a tensor" where
  "tensor_add a b =
     (case broadcast_shape (shape a) (shape b) of
        None \<Rightarrow> Inl RuntimeError
      | Some shp \<Rightarrow>
          Inr \<lparr>shape = shp,
               entry = (\<lambda>idx. entry a (expand_index (shape a) idx)
                              + entry b (expand_index (shape b) idx))\<rparr>)"

text \<open>\<open>torch.tensor(0.0)\<close>: a tensor without axes.\<close>

definition scalar_tensor :: "'a \<Rightarrow> 'a tensor" where
  "scalar_tensor x = \<lparr>shape = [], entry = (\<lambda>idx. x)\<rparr>"

text \<open>
  A Python dictionary with string keys is the list of its items in insertion order:
  \<open>d[k] = v\<close> is \<open>AList.update k v d\<close> (an existing key keeps its place, a new one
  goes to the end), \<open>d[k]\<close> is \<open>map_of d k\<close> and raises \<open>KeyError\<close> on \<open>None\<close>.

  The first loop of \<open>to_dict\<close> (lines 321-322), \<open>k\<close> being the index of \<open>enumerate\<close>.
\<close>

fun fill_targets ::
  "string list \<Rightarrow> nat \<Rightarrow> 'a tensor \<Rightarrow> (string \<times> 'a tensor) list
     \<Rightarrow> error + (string \<times> 'a tensor) list" where
  "fill_targets [] k estimates d = Inr d"
| "fill_targets (target # rest) k estimates d =
     (case getitem_first estimates (int k) of
        Inl e \<Rightarrow> Inl e
      | Inr sl \<Rightarrow> fill_targets rest (k + 1) estimates (AList.update target sl d))"

text \<open>Lines 320-326: one entry per target, and the residual's when there is one.\<close>

definition estimates_by_name ::
  "UMXSeparator \<Rightarrow> 'a tensor \<Rightarrow> error + (string \<times> 'a tensor) list" where
  "estimates_by_name sep estimates =
     (case fill_targets (map fst (target_models sep)) 0 estimates [] of
        Inl e \<Rightarrow> Inl e
      | Inr d \<Rightarrow>
          (if residual sep
           then (case getitem_first estimates (- 1) of
                   Inl e \<Rightarrow> Inl e
                 | Inr sl \<Rightarrow> Inr (AList.update ''residual'' sl d))
           else Inr d))"

text \<open>The inner loop of the aggregation (lines 332-333).\<close>

fun sum_targets ::
  "string \<Rightarrow> string list \<Rightarrow> (string \<times> ('a::plus) tensor) list \<Rightarrow> (string \<times> 'a tensor) list
     \<Rightarrow> error + (string \<times> 'a tensor) list" where
  "sum_targets key [] estimates_dict new_estimates = Inr new_estimates"
| "sum_targets key (target # rest) estimates_dict new_estimates =
     (case map_of new_estimates key of
        None \<Rightarrow> Inl KeyError
      | Some acc \<Rightarrow>
          (case map_of estimates_dict target of
             None \<Rightarrow> Inl KeyError
           | Some t \<Rightarrow>
               (case tensor_add acc t of
                  Inl e \<Rightarrow> Inl e
                | Inr acc' \<Rightarrow>
                    sum_targets key rest estimates_dict (AList.update key acc' new_estimates))))"

text \<open>The outer loop of the aggregation (lines 330-333) over the items of \<open>aggregate_dict\<close>.\<close>

fun aggregate ::
  "(string \<times> string list) list \<Rightarrow> (string \<times> ('a::{plus,zero}) tensor) list
     \<Rightarrow> (string \<times> 'a tensor) list \<Rightarrow> error + (string \<times> 'a tensor) list" where
  "aggregate [] estimates_dict new_estimates = Inr new_estimates"
| "aggregate ((key, targets) # rest) estimates_dict new_estimates =
     (case sum_targets key targets estimates_dict
             (AList.update key (scalar_tensor 0) new_estimates) of
        Inl e \<Rightarrow> Inl e
      | Inr new_estimates' \<Rightarrow> aggregate rest estimates_dict new_estimates')"

text \<open>\<open>UMXSeparator.to_dict\<close>.\<close>

definition to_dict ::
  "UMXSeparator \<Rightarrow> ('a::{plus,zero}) tensor \<Rightarrow> (string \<times> string list) list option
     \<Rightarrow> error + (string \<times> 'a tensor) list" where
  "to_dict sep estimates aggregate_dict =
     (case estimates_by_name sep estimates of
        Inl e \<Rightarrow> Inl e
      | Inr estimates_dict \<Rightarrow>
          (case aggregate_dict of
             None \<Rightarrow> Inr estimates_dict
           | Some agg \<Rightarrow> aggregate agg estimates_dict []))"

text \<open>\<open>UMXSeparator.separate\<close>.\<close>

definition separate ::
  "wiener_filter \<Rightarrow> UMXSeparator \<Rightarrow> real tensor \<Rightarrow> run_state
     \<Rightarrow> (error + (string \<times> real tensor) list) \<times> run_state" where
  "separate wiener sep mix s =
     (case forward wiener sep mix s of
        (Inl e, s') \<Rightarrow> (Inl e, s')
      | (Inr (estimates, targets_stft), s') \<Rightarrow>
          (case to_dict sep (squeeze0 estimates) None of
             Inl e \<Rightarrow> (Inl e, s')
           | Inr estimates_dict \<Rightarrow> (Inr estimates_dict, s')))"

text \<open>
  What "\<open>t\<close> is the elementwise sum of the estimates named \<open>names\<close>" means, for
  estimates of shape \<open>shp\<close> kept in the dictionary \<open>estimates_dict\<close>: the entries of
  \<open>t\<close> are the sums of the entries of the named estimates, a name counting as often as
  it is listed; the sum of no estimate is \<open>torch.tensor(0.0)\<close>.
\<close>

definition elementwise_sum_of ::
  "(string \<times> ('a::monoid_add) tensor) list \<Rightarrow> nat list \<Rightarrow> string list \<Rightarrow> 'a tensor \<Rightarrow> bool" where
  "elementwise_sum_of estimates_dict shp names t =
     ((names = [] \<longrightarrow> t = scalar_tensor 0)
      \<and> (names \<noteq> [] \<longrightarrow> shape t = shp
            \<and> (\<forall>idx. valid_index shp idx \<longrightarrow>
                  entry t idx
                    = sum_list (map (\<lambda>n. entry (the (map_of estimates_dict n)) idx) names))))"

section \<open>A small separator, to run the definitions on\<close>

text \<open>
  One sample, one channel, one frequency bin, three frames; the estimator returns its
  input and zeroes the buffer it was given; the Wiener filter returns a tensor without
  axes, which broadcasts to any slot.
\<close>

definition example_estimator :: estimator where
  "example_estimator = (\<lambda>x. Some (x, zeros (shape x)))"

definition example_wiener :: wiener_filter where
  "example_wiener = (\<lambda>sp mx iterations soft res. Some (scalar_tensor 0))"

definition example_separator ::
  "bool \<Rightarrow> int option \<Rightarrow> int \<Rightarrow> (string \<times> estimator) list \<Rightarrow> UMXSeparator" where
  "example_separator res win iterations models =
     \<lparr>residual = res, wiener_win_len = win, num_iter = iterations, softmask = False,
      stft = (\<lambda>m. Some (zeros [1, 1, 1, 3, 2])),
      istft = (\<lambda>t n. Some \<lparr>shape = [shape t ! 0, shape t ! 1, shape t ! 2, n],
                           entry = (\<lambda>idx. 0)\<rparr>),
      complexnorm = (\<lambda>t. Some \<lparr>shape = [1, 1, 1, 3], entry = (\<lambda>idx. 1)\<rparr>),
      target_models = models\<rparr>"

definition example_mix :: "real tensor" where
  "example_mix = zeros [1, 1, 4]"

definition empty_run :: run_state where
  "empty_run = \<lparr>heap = [], estimator_calls = [], wiener_calls = []\<rparr>"

text \<open>
  A stack of two estimates for one channel and two samples of time: the first all 1,
  the second all 2.
\<close>

definition example_estimates :: "real tensor" where
  "example_estimates = \<lparr>shape = [2, 1, 2], entry = (\<lambda>idx. real (hd idx) + 1)\<rparr>"

section \<open>Properties of the bandwidth limiter\<close>


lemma np_max_Nil: "np_max [] = Inl ValueError"
  by (simp add: np_max_def)


lemma linspace_error: "linspace start stop num = Inl e \<Longrightarrow> e = ValueError"
  by (auto simp: linspace_def split: if_splits)







lemma linspace_point_nonneg: "0 \<le> stop \<Longrightarrow> 0 \<le> linspace_point 0 stop n i"
  by (simp add: linspace_point_def)

lemma linspace_nonneg:
  assumes "0 \<le> stop" "linspace 0 stop num = Inr fs"
  shows "\<forall>f \<in> set fs. 0 \<le> f"
proof -
  have "fs = map (linspace_point 0 stop (nat num)) [0..<nat num]"
    using assms(2) by (auto simp: linspace_def split: if_splits)
  then show ?thesis using linspace_point_nonneg [OF assms(1)] by auto
qed

lemma where_le_empty:
  assumes "\<forall>f \<in> set fs. 0 \<le> f" "b < 0"
  shows "where_le fs b = []"
proof -
  have "\<And>i. i < length fs \<Longrightarrow> \<not> fs ! i \<le> b"
  proof -
    fix i assume "i < length fs"
    then have "0 \<le> fs ! i" using assms(1) by simp
    then show "\<not> fs ! i \<le> b" using assms(2) by simp
  qed
  then show ?thesis by (simp add: where_le_def filter_empty_conv)
qed

lemma upt3: "[0..<3] = [0, 1, 2]"
  by (simp add: upt_rec)

text \<open>
  Claim C10. For a bandwidth strictly below 0 (and a sample rate \<open>\<ge> 0\<close>, so that the
  lowest grid frequency is 0), every grid frequency is \<open>\<ge> 0\<close>, no index passes the
  threshold, the index list is empty, and \<open>np.max\<close> of it raises: the call fails with
  \<open>ValueError\<close> instead of returning a bin index.
\<close>

theorem bandwidth_to_max_bin_negative_fails:
  assumes "0 \<le> rate" "bandwidth < 0"
  shows "bandwidth_to_max_bin rate n_fft bandwidth = Inl ValueError
       \<and> (\<forall>freqs. linspace 0 (rate / 2) (n_fft div 2 + 1) = Inr freqs \<longrightarrow>
            (\<forall>f \<in> set freqs. 0 \<le> f) \<and> where_le freqs bandwidth = []
            \<and> np_max (where_le freqs bandwidth) = Inl ValueError)"
proof -
  have stop: "0 \<le> rate / 2" using assms(1) by simp
  have A: "\<forall>freqs. linspace 0 (rate / 2) (n_fft div 2 + 1) = Inr freqs \<longrightarrow>
            (\<forall>f \<in> set freqs. 0 \<le> f) \<and> where_le freqs bandwidth = []
            \<and> np_max (where_le freqs bandwidth) = Inl ValueError"
  proof (intro allI impI)
    fix freqs assume ls: "linspace 0 (rate / 2) (n_fft div 2 + 1) = Inr freqs"
    have nn: "\<forall>f \<in> set freqs. 0 \<le> f" by (rule linspace_nonneg [OF stop ls])
    have "where_le freqs bandwidth = []" by (rule where_le_empty [OF nn assms(2)])
    with nn show "(\<forall>f \<in> set freqs. 0 \<le> f) \<and> where_le freqs bandwidth = []
            \<and> np_max (where_le freqs bandwidth) = Inl ValueError"
      by (simp add: np_max_Nil)
  qed
  have "bandwidth_to_max_bin rate n_fft bandwidth = Inl ValueError"
  proof (cases "linspace 0 (rate / 2) (n_fft div 2 + 1)")
    case (Inl e)
    then have "e = ValueError" by (rule linspace_error)
    with Inl show ?thesis by (simp add: bandwidth_to_max_bin_def)
  next
    case (Inr freqs)
    with A show ?thesis by (simp add: bandwidth_to_max_bin_def np_max_Nil)
  qed
  with A show ?thesis by blast
qed

theorem bandwidth_to_max_bin_negative_fails_witness:
  "(0::real) \<le> 8000 \<and> (-1::real) < 0
     \<and> bandwidth_to_max_bin 8000 4 (-1) = Inl ValueError
     \<and> linspace 0 (8000 / 2) (4 div 2 + 1) = Inr [0, 2000, 4000]
     \<and> where_le [0, 2000, 4000] (-1) = []"
  using bandwidth_to_max_bin_negative_fails [of 8000 "-1" 4]
  by (simp add: linspace_def linspace_point_def where_le_def upt3)

section \<open>Properties of \<open>forward\<close>\<close>

lemma permute_error: "permute dims t = Inl e \<Longrightarrow> e = RuntimeError"
  by (auto simp: permute_def split: if_splits)

lemma expand_error: "expand v shp = Inl e \<Longrightarrow> e = RuntimeError"
  by (auto simp: expand_def split: if_splits)

lemma setitem_last_error: "setitem_last t j v = Inl e \<Longrightarrow> e = IndexError \<or> e = RuntimeError"
  by (auto simp: setitem_last_def split: if_splits sum.splits dest: expand_error)

lemma getitem_frames_error: "getitem_frames t sample cur = Inl e \<Longrightarrow> e = IndexError"
  by (auto simp: getitem_frames_def split: if_splits)

lemma setitem_frames_error:
  "setitem_frames t sample cur v = Inl e \<Longrightarrow> e = IndexError \<or> e = RuntimeError"
  by (auto simp: setitem_frames_def split: if_splits sum.splits dest: expand_error)

lemma arange_error: "arange a b = Inl e \<Longrightarrow> e = RuntimeError"
  by (auto simp: arange_def split: if_splits)

lemma call_estimator_wiener_calls:
  "call_estimator name f a s = (r, s') \<Longrightarrow> wiener_calls s' = wiener_calls s"
  by (auto simp: call_estimator_def alloc_def Let_def split: option.splits prod.splits)

lemma call_estimator_error:
  "call_estimator name f a s = (Inl e, s') \<Longrightarrow> e = CollaboratorError name"
  by (auto simp: call_estimator_def alloc_def Let_def split: option.splits prod.splits)

lemma clone_wiener_calls: "clone a s = (c, s') \<Longrightarrow> wiener_calls s' = wiener_calls s"
  by (auto simp: clone_def alloc_def)

lemma estimate_loop_wiener_calls:
  "estimate_loop ms j aX aS s = (r, s') \<Longrightarrow> wiener_calls s' = wiener_calls s"
proof (induction ms arbitrary: j s)
  case Nil
  then show ?case by simp
next
  case (Cons m rest)
  obtain target_name target_module where m: "m = (target_name, target_module)" by (cases m)
  obtain c s1 where c: "clone aX s = (c, s1)" by (cases "clone aX s")
  obtain r2 s2 where ce: "call_estimator target_name target_module c s1 = (r2, s2)"
    by (cases "call_estimator target_name target_module c s1")
  have w2: "wiener_calls s2 = wiener_calls s"
    using clone_wiener_calls [OF c] call_estimator_wiener_calls [OF ce] by simp
  show ?case
  proof (cases r2)
    case (Inl e)
    with Cons.prems m c ce w2 show ?thesis by simp
  next
    case (Inr ou)
    show ?thesis
    proof (cases "setitem_last (heap s2 ! aS) j (heap s2 ! ou)")
      case (Inl e)
      with Cons.prems m c ce Inr w2 show ?thesis by simp
    next
      case inr: (Inr sp)
      from Cons.prems m c ce Inr inr
      have "estimate_loop rest (j + 1) aX aS (s2\<lparr>heap := (heap s2)[aS := sp]\<rparr>) = (r, s')"
        by simp
      from Cons.IH [OF this] w2 show ?thesis by simp
    qed
  qed
qed

lemma estimate_loop_error:
  "estimate_loop ms j aX aS s = (Inl e, s') \<Longrightarrow> e \<noteq> ConfigError"
proof (induction ms arbitrary: j s)
  case Nil
  then show ?case by simp
next
  case (Cons m rest)
  obtain target_name target_module where m: "m = (target_name, target_module)" by (cases m)
  obtain c s1 where c: "clone aX s = (c, s1)" by (cases "clone aX s")
  obtain r2 s2 where ce: "call_estimator target_name target_module c s1 = (r2, s2)"
    by (cases "call_estimator target_name target_module c s1")
  show ?case
  proof (cases r2)
    case (Inl e2)
    with Cons.prems m c ce call_estimator_error [of target_name target_module c s1 e2 s2]
    show ?thesis by auto
  next
    case (Inr ou)
    show ?thesis
    proof (cases "setitem_last (heap s2 ! aS) j (heap s2 ! ou)")
      case (Inl e2)
      with Cons.prems m c ce Inr setitem_last_error [OF Inl] show ?thesis by auto
    next
      case inr: (Inr sp)
      from Cons.prems m c ce Inr inr
      have "estimate_loop rest (j + 1) aX aS (s2\<lparr>heap := (heap s2)[aS := sp]\<rparr>) = (Inl e, s')"
        by simp
      from Cons.IH [OF this] show ?thesis .
    qed
  qed
qed

lemma prepare_wiener_calls:
  "prepare sep mix s = (r, s') \<Longrightarrow> wiener_calls s' = wiener_calls s"
  by (auto simp: prepare_def alloc_def split: if_splits option.splits prod.splits sum.splits
      dest!: estimate_loop_wiener_calls)

lemma prepare_error:
  "prepare sep mix s = (Inl e, s') \<Longrightarrow> e \<noteq> ConfigError"
  by (auto simp: prepare_def alloc_def split: if_splits option.splits prod.splits sum.splits
      dest: estimate_loop_error permute_error)



lemma chunk_loop_error:
  assumes "\<And>cur t s e s'. body cur t s = (Inl e, s') \<Longrightarrow> e \<noteq> ConfigError"
    and "chunk_loop body nb_frames w pos t s = (Inl e, s')"
  shows "e \<noteq> ConfigError"
  using assms
proof (induction body nb_frames w pos t s rule: chunk_loop.induct)
  case (1 body nb_frames w pos t s)
  show ?case
  proof (cases "pos < nb_frames")
    case False
    with "1.prems"(2) show ?thesis by (simp add: chunk_loop.simps [of body nb_frames w pos])
  next
    case True
    show ?thesis
    proof (cases "arange pos (min (int nb_frames) (int pos + w))")
      case (Inl e1)
      with "1.prems"(2) True arange_error [OF Inl] show ?thesis
        by (simp add: chunk_loop.simps [of body nb_frames w pos])
    next
      case (Inr cur)
      show ?thesis
      proof (cases "cur = []")
        case True
        with "1.prems"(2) \<open>pos < nb_frames\<close> Inr show ?thesis
          by (auto simp add: chunk_loop.simps [of body nb_frames w pos])
      next
        case False
        obtain r1 s1 where b: "body cur t s = (r1, s1)" by (cases "body cur t s")
        show ?thesis
        proof (cases r1)
          case (Inl e1)
          with "1.prems" \<open>pos < nb_frames\<close> Inr False b show ?thesis
            by (auto simp add: chunk_loop.simps [of body nb_frames w pos])
        next
          case inr: (Inr t1)
          with "1.prems"(2) \<open>pos < nb_frames\<close> Inr False b
          have rec: "chunk_loop body nb_frames w (last cur + 1) t1 s1 = (Inl e, s')"
            by (simp add: chunk_loop.simps [of body nb_frames w pos])
          show ?thesis
            by (rule "1.IH" [OF \<open>pos < nb_frames\<close> Inr False b [symmetric] inr "1.prems"(1) rec])
        qed
      qed
    qed
  qed
qed

lemma setitem_frames_shape: "setitem_frames t sample cur v = Inr t' \<Longrightarrow> shape t' = shape t"
  by (auto simp: setitem_frames_def split: if_splits sum.splits)


lemma refine_chunk_error:
  "refine_chunk wiener sep sp ms sample cur t s = (Inl e, s') \<Longrightarrow> e \<noteq> ConfigError"
  by (auto simp: refine_chunk_def Let_def split: sum.splits option.splits
      dest: getitem_frames_error setitem_frames_error)

lemma refine_chunk_shape:
  "refine_chunk wiener sep sp ms sample cur t s = (Inr t', s') \<Longrightarrow> shape t' = shape t"
  by (auto simp: refine_chunk_def Let_def split: sum.splits option.splits
      dest: setitem_frames_shape)

lemma chunk_loop_shape:
  assumes "\<And>cur t s t' s'. body cur t s = (Inr t', s') \<Longrightarrow> shape t' = shape t"
    and "chunk_loop body nb_frames w pos t s = (Inr t', s')"
  shows "shape t' = shape t"
  using assms
proof (induction body nb_frames w pos t s rule: chunk_loop.induct)
  case (1 body nb_frames w pos t s)
  show ?case
  proof (cases "pos < nb_frames")
    case False
    with "1.prems"(2) show ?thesis by (simp add: chunk_loop.simps [of body nb_frames w pos])
  next
    case True
    show ?thesis
    proof (cases "arange pos (min (int nb_frames) (int pos + w))")
      case (Inl e1)
      with "1.prems"(2) True show ?thesis
        by (simp add: chunk_loop.simps [of body nb_frames w pos])
    next
      case (Inr cur)
      show ?thesis
      proof (cases "cur = []")
        case True
        with "1.prems"(2) \<open>pos < nb_frames\<close> Inr show ?thesis
          by (auto simp add: chunk_loop.simps [of body nb_frames w pos])
      next
        case False
        obtain r1 s1 where b: "body cur t s = (r1, s1)" by (cases "body cur t s")
        show ?thesis
        proof (cases r1)
          case (Inl e1)
          with "1.prems" \<open>pos < nb_frames\<close> Inr False b show ?thesis
            by (auto simp add: chunk_loop.simps [of body nb_frames w pos])
        next
          case inr: (Inr t1)
          with "1.prems"(2) \<open>pos < nb_frames\<close> Inr False b
          have rec: "chunk_loop body nb_frames w (last cur + 1) t1 s1 = (Inr t', s')"
            by (simp add: chunk_loop.simps [of body nb_frames w pos])
          have "shape t' = shape t1"
            by (rule "1.IH" [OF \<open>pos < nb_frames\<close> Inr False b [symmetric] inr "1.prems"(1) rec])
          moreover have "shape t1 = shape t" using "1.prems"(1) b inr by simp
          ultimately show ?thesis by simp
        qed
      qed
    qed
  qed
qed


lemma sample_loop_error:
  "sample_loop wiener sep sp ms nb_frames samples t s = (Inl e, s') \<Longrightarrow> e \<noteq> ConfigError"
proof (induction samples arbitrary: t s)
  case Nil
  then show ?case by simp
next
  case (Cons sample rest)
  let ?w = "eff_win_len sep nb_frames"
  obtain r1 s1 where c: "chunk_loop (refine_chunk wiener sep sp ms sample) nb_frames ?w 0 t s = (r1, s1)"
    by (cases "chunk_loop (refine_chunk wiener sep sp ms sample) nb_frames ?w 0 t s")
  show ?case
  proof (cases r1)
    case (Inl e1)
    with Cons.prems c have "e1 = e" by simp
    show ?thesis
    proof (rule chunk_loop_error [where body = "refine_chunk wiener sep sp ms sample"])
      show "\<And>cur t s e s'. refine_chunk wiener sep sp ms sample cur t s = (Inl e, s')
              \<Longrightarrow> e \<noteq> ConfigError"
        by (rule refine_chunk_error)
      show "chunk_loop (refine_chunk wiener sep sp ms sample) nb_frames ?w 0 t s = (Inl e, s1)"
        using c Inl \<open>e1 = e\<close> by simp
    qed
  next
    case (Inr t1)
    with Cons.prems c have rec: "sample_loop wiener sep sp ms nb_frames rest t1 s1 = (Inl e, s')"
      by simp
    from Cons.IH [OF rec] show ?thesis .
  qed
qed

lemma sample_loop_shape:
  "sample_loop wiener sep sp ms nb_frames samples t s = (Inr t', s') \<Longrightarrow> shape t' = shape t"
proof (induction samples arbitrary: t s)
  case Nil
  then show ?case by simp
next
  case (Cons sample rest)
  let ?w = "eff_win_len sep nb_frames"
  obtain r1 s1 where c: "chunk_loop (refine_chunk wiener sep sp ms sample) nb_frames ?w 0 t s = (r1, s1)"
    by (cases "chunk_loop (refine_chunk wiener sep sp ms sample) nb_frames ?w 0 t s")
  show ?case
  proof (cases r1)
    case (Inl e1)
    with Cons.prems c show ?thesis by simp
  next
    case (Inr t1)
    with Cons.prems c have rec: "sample_loop wiener sep sp ms nb_frames rest t1 s1 = (Inr t', s')"
      by simp
    have "shape t1 = shape t"
    proof (rule chunk_loop_shape [where body = "refine_chunk wiener sep sp ms sample"])
      show "\<And>cur t s t' s'. refine_chunk wiener sep sp ms sample cur t s = (Inr t', s')
              \<Longrightarrow> shape t' = shape t"
        by (rule refine_chunk_shape)
      show "chunk_loop (refine_chunk wiener sep sp ms sample) nb_frames ?w 0 t s = (Inr t1, s1)"
        using c Inr by simp
    qed
    with Cons.IH [OF rec] show ?thesis by simp
  qed
qed









lemma refine_and_invert_config:
  "effective_nb_sources sep = 1 \<Longrightarrow> 0 < num_iter sep
     \<Longrightarrow> refine_and_invert wiener sep mix sp ms s = (Inl ConfigError, s)"
  by (simp add: refine_and_invert_def)

lemma refine_and_invert_error:
  assumes "effective_nb_sources sep \<noteq> 1 \<or> \<not> 0 < num_iter sep"
    and "refine_and_invert wiener sep mix sp ms s = (Inl e, s')"
  shows "e \<noteq> ConfigError"
  using assms
  by (auto simp: refine_and_invert_def Let_def
      split: if_splits prod.splits sum.splits option.splits
      dest: sample_loop_error permute_error)


lemma refine_and_invert_sources:
  assumes "refine_and_invert wiener sep mix sp ms s = (Inr (estimates, ts), s')"
  shows "length (shape ts) = 6 \<and> shape ts ! 1 = effective_nb_sources sep"
proof -
  from assms obtain t' where
    sl: "sample_loop wiener sep sp ms (shape sp ! 1) [0..<hd (shape mix)]
       (zeros (shape ms @ [effective_nb_sources sep])) s = (Inr t', s')"
    and pm: "permute [0, 5, 3, 2, 1, 4] t' = Inr ts"
    by (auto simp: refine_and_invert_def Let_def
        split: if_splits prod.splits sum.splits option.splits)
  have sh: "shape t' = shape ms @ [effective_nb_sources sep]"
    using sample_loop_shape [OF sl] by (simp add: zeros_def)
  from pm have len: "length (shape t') = 6"
    and ts: "shape ts = map (\<lambda>d. shape t' ! d) [0, 5, 3, 2, 1, 4]"
    by (auto simp: permute_def split: if_splits)
  from len sh have "length (shape ms) = 5" by simp
  then have "shape t' ! 5 = effective_nb_sources sep" using sh by (simp add: nth_append)
  with ts show ?thesis by simp
qed






lemmas ex_defs = example_separator_def example_mix_def empty_run_def example_estimator_def
  example_wiener_def
lemmas run_defs = prepare_def alloc_def clone_def call_estimator_def zeros_def
      setitem_last_def expand_def expandable_def permute_def Let_def

lemma example_prepare:
  "\<exists>aM sp ms s1. prepare (example_separator res win it [(''piano'', example_estimator)])
       example_mix empty_run = (Inr (aM, sp, ms), s1)
     \<and> shape sp = [1, 3, 1, 1, 1] \<and> shape ms = [1, 3, 1, 1, 2]"
  by (simp add: run_defs ex_defs)


text \<open>
  Claim C1. In a call of \<open>forward\<close> with \<open>num_iter > 0\<close>: when the number of sources
  (the loaded targets, plus one for the residual) is exactly one, the call fails; it
  fails with the configuration error as soon as the steps before the check (the
  transforms and the estimators) have returned; and the Wiener filter has not been
  called. When the number of sources is at least two, the configuration error is not
  raised.
\<close>

theorem forward_em_needs_two_sources:
  assumes "0 < num_iter sep"
  shows "(effective_nb_sources sep = 1 \<longrightarrow>
            (\<forall>aM sp ms s1. prepare sep mix s = (Inr (aM, sp, ms), s1)
               \<longrightarrow> forward wiener sep mix s = (Inl ConfigError, s1))
          \<and> (\<exists>e s1. forward wiener sep mix s = (Inl e, s1)
                \<and> wiener_calls s1 = wiener_calls s))
       \<and> (2 \<le> effective_nb_sources sep \<longrightarrow> fst (forward wiener sep mix s) \<noteq> Inl ConfigError)"
proof (intro conjI impI allI)
  fix aM sp ms s1
  assume one: "effective_nb_sources sep = 1"
    and p: "prepare sep mix s = (Inr (aM, sp, ms), s1)"
  show "forward wiener sep mix s = (Inl ConfigError, s1)"
    using p refine_and_invert_config [OF one assms] by (simp add: forward_def)
next
  assume one: "effective_nb_sources sep = 1"
  obtain r s1 where p: "prepare sep mix s = (r, s1)" by (cases "prepare sep mix s")
  have w: "wiener_calls s1 = wiener_calls s" by (rule prepare_wiener_calls [OF p])
  show "\<exists>e s1. forward wiener sep mix s = (Inl e, s1) \<and> wiener_calls s1 = wiener_calls s"
  proof (cases r)
    case (Inl e)
    with p w show ?thesis by (auto simp: forward_def)
  next
    case (Inr x)
    obtain aM sp ms where "x = (aM, sp, ms)" by (cases x)
    with Inr p w refine_and_invert_config [OF one assms] show ?thesis
      by (auto simp: forward_def)
  qed
next
  assume two: "2 \<le> effective_nb_sources sep"
  obtain r s1 where p: "prepare sep mix s = (r, s1)" by (cases "prepare sep mix s")
  show "fst (forward wiener sep mix s) \<noteq> Inl ConfigError"
  proof (cases r)
    case (Inl e)
    with p prepare_error [of sep mix s e s1] show ?thesis by (auto simp: forward_def)
  next
    case (Inr x)
    obtain aM sp ms where x: "x = (aM, sp, ms)" by (cases x)
    obtain r2 s2 where ri: "refine_and_invert wiener sep (heap s1 ! aM) sp ms s1 = (r2, s2)"
      by (cases "refine_and_invert wiener sep (heap s1 ! aM) sp ms s1")
    have "r2 \<noteq> Inl ConfigError"
    proof
      assume "r2 = Inl ConfigError"
      with ri refine_and_invert_error [of sep wiener "heap s1 ! aM" sp ms s1 ConfigError s2] two
      show False by simp
    qed
    with p Inr x ri show ?thesis by (simp add: forward_def)
  qed
qed

theorem forward_em_needs_two_sources_witness:
  "0 < num_iter (example_separator False (Some 2) 1 [(''piano'', example_estimator)])
   \<and> effective_nb_sources (example_separator False (Some 2) 1 [(''piano'', example_estimator)]) = 1
   \<and> fst (forward example_wiener
           (example_separator False (Some 2) 1 [(''piano'', example_estimator)])
           example_mix empty_run) = Inl ConfigError
   \<and> wiener_calls (snd (forward example_wiener
           (example_separator False (Some 2) 1 [(''piano'', example_estimator)])
           example_mix empty_run)) = []
   \<and> 2 \<le> effective_nb_sources (example_separator True (Some 2) 1 [(''piano'', example_estimator)])
   \<and> fst (forward example_wiener
           (example_separator True (Some 2) 1 [(''piano'', example_estimator)])
           example_mix empty_run) \<noteq> Inl ConfigError"
proof -
  let ?S1 = "example_separator False (Some 2) 1 [(''piano'', example_estimator)]"
  let ?S2 = "example_separator True (Some 2) 1 [(''piano'', example_estimator)]"
  have it1: "0 < num_iter ?S1" and it2: "0 < num_iter ?S2"
    by (simp_all add: example_separator_def)
  have one: "effective_nb_sources ?S1 = 1"
    by (simp add: effective_nb_sources_def example_separator_def)
  have two: "2 \<le> effective_nb_sources ?S2"
    by (simp add: effective_nb_sources_def example_separator_def)
  obtain aM sp ms s1 where p: "prepare ?S1 example_mix empty_run = (Inr (aM, sp, ms), s1)"
    using example_prepare [of False "Some 2" 1] by blast
  from forward_em_needs_two_sources [OF it1, of example_mix empty_run example_wiener] one p
  have f: "forward example_wiener ?S1 example_mix empty_run = (Inl ConfigError, s1)"
    and "\<exists>e s1. forward example_wiener ?S1 example_mix empty_run = (Inl e, s1)
            \<and> wiener_calls s1 = wiener_calls empty_run"
    by blast+
  then have w: "wiener_calls s1 = []" by (auto simp: empty_run_def)
  from forward_em_needs_two_sources [OF it2, of example_mix empty_run example_wiener] two
  have "fst (forward example_wiener ?S2 example_mix empty_run) \<noteq> Inl ConfigError" by blast
  with it1 one two f w show ?thesis by simp
qed



end
